theory Spec2Isabelle
  imports Complex_Main
begin

section \<open>Geo distance (\<open>get_distance\<close>, app.py lines 30-35)\<close>

text \<open>
  A coordinate is the Python tuple \<open>(lat, lon)\<close> in degrees. Python floats are IEEE
  doubles; the definitions of this section read them as real numbers and take every
  arithmetic operation and every \<open>math\<close> function to be exact. The double a Python
  expression evaluates to is the exact value up to rounding, so the exact reading gives
  the program's value wherever rounding does not decide it. For \<open>get_distance\<close> rounding
  decides in two places, both on line 35:
  \<^item> the haversine term \<open>a\<close> is at most 1 as a real number, and exactly 1 for two points
    opposite each other on the globe (lemma \<open>haversine_a_antipodal\<close>), but its double
    can then be \<open>1.0000000000000002\<close>, as it is for
    \<open>get_distance(8.0, 0.0, -8.0, 180.0)\<close>; then \<open>math.sqrt(1 - a)\<close> raises \<open>ValueError\<close>
    and the call has no value;
  \<^item> where the exact value lies within the rounding error of a whole number of metres,
    \<open>int\<close> can truncate the double to the neighbouring integer.

  The relation \<open>float_distance\<close> below covers the second; the first is outside this
  development. The coordinates at which this file evaluates \<open>get_distance\<close> are far from
  both: they are less than three degrees apart, and no theorem turns on a value within
  0.2 m of a whole number other than the 0 of two equal points, which the double gives
  exactly.
\<close>

type_synonym coord = "real \<times> real"

text \<open>\<open>math.radians\<close>.\<close>

definition radians :: "real \<Rightarrow> real" where
  "radians d = d * (pi / 180)"

text \<open>\<open>math.atan2(y, x)\<close>: the angle of the point \<open>(x, y)\<close>, in \<open>(-pi, pi]\<close>.\<close>

definition atan2 :: "real \<Rightarrow> real \<Rightarrow> real" where
  "atan2 y x =
     (if 0 < x then arctan (y / x)
      else if x < 0 then (if 0 \<le> y then arctan (y / x) + pi else arctan (y / x) - pi)
      else if 0 < y then pi / 2
      else if y < 0 then - (pi / 2)
      else 0)"

text \<open>\<open>int(x)\<close> on a float truncates towards zero.\<close>

definition py_int :: "real \<Rightarrow> int" where
  "py_int x = (if 0 \<le> x then \<lfloor>x\<rfloor> else \<lceil>x\<rceil>)"

text \<open>The local \<open>a\<close> of \<open>get_distance\<close> (line 34).\<close>

definition haversine_a :: "real \<Rightarrow> real \<Rightarrow> real \<Rightarrow> real \<Rightarrow> real" where
  "haversine_a lat1 lon1 lat2 lon2 =
     (let phi1 = radians lat1; phi2 = radians lat2;
          dphi = radians (lat2 - lat1); dlambda = radians (lon2 - lon1)
      in (sin (dphi / 2))\<^sup>2 + cos phi1 * cos phi2 * (sin (dlambda / 2))\<^sup>2)"

text \<open>
  \<open>get_distance\<close> (lines 31-35), every operation exact. Both arguments of \<open>math.sqrt\<close>
  are then non-negative (lemma \<open>haversine_a_range\<close>).
\<close>

definition get_distance :: "real \<Rightarrow> real \<Rightarrow> real \<Rightarrow> real \<Rightarrow> int" where
  "get_distance lat1 lon1 lat2 lon2 =
     (let R = 6371000;
          a = haversine_a lat1 lon1 lat2 lon2
      in py_int (2 * R * atan2 (sqrt a) (sqrt (1 - a))))"

text \<open>
  What a call of \<open>get_distance\<close> that returns can return on doubles: the truncation of a
  non-negative number \<open>v\<close>, the double handed to \<open>int\<close>, that misses the exact value of
  the expression of line 35 by at most \<open>err\<close> metres. (Both arguments of \<open>math.atan2\<close>
  are square roots, so the double is not negative.) The rounding is a property of the
  platform's arithmetic and no part of the source; \<open>err\<close> is a parameter.
\<close>

definition float_distance :: "real \<Rightarrow> real \<Rightarrow> real \<Rightarrow> real \<Rightarrow> real \<Rightarrow> int \<Rightarrow> bool" where
  "float_distance err lat1 lon1 lat2 lon2 d =
     (let R = 6371000;
          a = haversine_a lat1 lon1 lat2 lon2
      in \<exists>v. 0 \<le> v \<and> \<bar>v - 2 * R * atan2 (sqrt a) (sqrt (1 - a))\<bar> \<le> err \<and> d = py_int v)"

text \<open>The call shape \<open>get_distance(*p, *q)\<close> used throughout the program.\<close>

definition distance_between :: "coord \<Rightarrow> coord \<Rightarrow> int" where
  "distance_between p q = get_distance (fst p) (snd p) (fst q) (snd q)"

text \<open>
  The scalar product of the unit vectors of two points given by latitude and longitude in
  radians; an auxiliary notion of the proofs only.
\<close>

definition unit_dot :: "real \<Rightarrow> real \<Rightarrow> real \<Rightarrow> real \<Rightarrow> real" where
  "unit_dot p1 l1 p2 l2 =
     (cos p1 * cos l1) * (cos p2 * cos l2) + (cos p1 * sin l1) * (cos p2 * sin l2)
       + sin p1 * sin p2"

text \<open>
  The central angle of two points times the radius: the real number that line 35
  truncates (lemma \<open>distance_between_floor\<close>), also an auxiliary notion of the proofs.
\<close>

definition great_circle :: "coord \<Rightarrow> coord \<Rightarrow> real" where
  "great_circle p q =
     6371000 * arccos (unit_dot (radians (fst p)) (radians (snd p)) (radians (fst q)) (radians (snd q)))"


section \<open>Request model\<close>

text \<open>
  The dictionaries \<open>{"name": ..., "coords": ...}\<close> built by \<open>fetch_stops_goyang\<close> and
  \<open>{"start_stop": ..., "end_stop": ...}\<close> built in \<open>main\<close>.
\<close>

record stop =
  name :: string
  coords :: coord

record passenger =
  start_stop :: stop
  end_stop :: stop


section \<open>Python values and exceptions\<close>

datatype py_error =
  ConnectionError | Timeout | JSONDecodeError | KeyError | IndexError | TypeError | ValueError

text \<open>A decoded JSON document (\<open>requests.Response.json()\<close>).\<close>

datatype json =
  JNull | JBool bool | JNum real | JStr string | JArr "json list" | JObj "(string \<times> json) list"

text \<open>\<open>v[k]\<close> for a string key: only a dict has string keys; a repeated key keeps its last value.\<close>

fun subscript_key :: "json \<Rightarrow> string \<Rightarrow> py_error + json" where
  "subscript_key (JObj kvs) k =
     (case map_of (rev kvs) k of None \<Rightarrow> Inl KeyError | Some v \<Rightarrow> Inr v)"
| "subscript_key _ k = Inl TypeError"

text \<open>
  \<open>v[0]\<close>: the first element of a list or the first character of a string; a decoded
  JSON object has string keys only, so the key \<open>0\<close> is missing.
\<close>

fun subscript_zero :: "json \<Rightarrow> py_error + json" where
  "subscript_zero (JArr []) = Inl IndexError"
| "subscript_zero (JArr (x # xs)) = Inr x"
| "subscript_zero (JStr []) = Inl IndexError"
| "subscript_zero (JStr (c # cs)) = Inr (JStr [c])"
| "subscript_zero (JObj kvs) = Inl KeyError"
| "subscript_zero _ = Inl TypeError"

text \<open>\<open>v / d\<close> for a numeric constant \<open>d\<close>: a number (or a bool, which is an int) divides.\<close>

fun py_truediv :: "json \<Rightarrow> real \<Rightarrow> py_error + real" where
  "py_truediv (JNum x) d = Inr (x / d)"
| "py_truediv (JBool b) d = Inr ((if b then 1 else 0) / d)"
| "py_truediv _ d = Inl TypeError"

text \<open>Sequencing of steps that may raise.\<close>

definition bind_err :: "'e + 'a \<Rightarrow> ('a \<Rightarrow> 'e + 'b) \<Rightarrow> 'e + 'b" where
  "bind_err r f = (case r of Inl e \<Rightarrow> Inl e | Inr v \<Rightarrow> f v)"




section \<open>The routing solver's interface (OR-Tools, a third-party library)\<close>

text \<open>
  \<open>RoutingIndexManager(n, 1, 0)\<close>: one vehicle whose start and end is node 0. The
  indices \<open>0 .. n-1\<close> are the nodes themselves, index \<open>n\<close> is the vehicle's end and
  stands for node 0 again. Every \<open>NextVar\<close> ranges over \<open>0 .. n\<close>.
\<close>

definition node_to_index :: "nat \<Rightarrow> nat" where
  "node_to_index node = node"

definition index_to_node :: "nat \<Rightarrow> nat \<Rightarrow> nat" where
  "index_to_node n i = (if i < n then i else 0)"

definition route_start :: nat where
  "route_start = 0"

definition is_end :: "nat \<Rightarrow> nat \<Rightarrow> bool" where
  "is_end n i = (n \<le> i)"

text \<open>
  What \<open>solve_vrp\<close> tells the library before it solves (lines 78-92): the number of
  nodes, the transit callback (the arc cost of the one vehicle and the transit of the
  dimension \<open>"Dist"\<close>), that dimension's slack, capacity and start flag, the
  pickup-and-delivery pairs, the pairs of the constraint
  \<open>CumulVar(pickup) <= CumulVar(delivery)\<close>, and the first-solution strategy.
\<close>

datatype first_solution_strategy = Automatic | Parallel_cheapest_insertion

record routing_model =
  num_nodes :: nat
  arc_cost :: "nat \<Rightarrow> nat \<Rightarrow> int"
  dim_slack_max :: int
  dim_capacity :: int
  dim_fix_start_cumul_to_zero :: bool
  pickup_delivery :: "(nat \<times> nat) list"
  cumul_le :: "(nat \<times> nat) list"
  strategy :: first_solution_strategy

text \<open>The part of a returned \<open>Assignment\<close> the program reads: the value of every \<open>NextVar\<close>.\<close>

type_synonym assignment = "nat \<Rightarrow> nat"

text \<open>The indices visited from \<open>i\<close> on before the end is reached, at most \<open>k\<close> of them.\<close>

fun visit_order :: "assignment \<Rightarrow> nat \<Rightarrow> nat \<Rightarrow> nat \<Rightarrow> nat list" where
  "visit_order nxt n i 0 = []"
| "visit_order nxt n i (Suc k) = (if is_end n i then [] else i # visit_order nxt n (nxt i) k)"

text \<open>
  The cumulated transit at every index of a tour whose first index has the value \<open>c\<close>
  (slack 0: the cumul of the next index is this one's plus the transit between them).
\<close>

fun cumuls :: "(nat \<Rightarrow> nat \<Rightarrow> int) \<Rightarrow> int \<Rightarrow> nat list \<Rightarrow> int list" where
  "cumuls cost c [] = []"
| "cumuls cost c [i] = [c]"
| "cumuls cost c (i # j # r) = c # cumuls cost (c + cost i j) (j # r)"

text \<open>\<open>x\<close> occurs in the list, and \<open>y\<close> occurs after the first \<open>x\<close>.\<close>

fun precedes :: "'a \<Rightarrow> 'a \<Rightarrow> 'a list \<Rightarrow> bool" where
  "precedes x y [] = False"
| "precedes x y (z # zs) = (if z = x then y \<in> set zs else precedes x y zs)"

definition cumul_at :: "nat list \<Rightarrow> int list \<Rightarrow> nat \<Rightarrow> int" where
  "cumul_at tour cs i = (case map_of (zip tour cs) i of None \<Rightarrow> 0 | Some c \<Rightarrow> c)"

text \<open>
  The library's contract for a returned assignment, for the models \<open>solve_vrp\<close> builds.
  The solver's code is not part of the program; this predicate states what the calls of
  lines 78-89 ask of a solution, and the theorems about \<open>solve_vrp\<close> assume it of the
  solver's answer.
  \<^item> Lines 78-79 (one vehicle, no optional node): following \<open>NextVar\<close> from the start
    visits every node index exactly once and then reaches the end.
  \<^item> Line 83 (\<open>AddDimension(t_idx, 0, 100000, True, "Dist")\<close>): the cumul is 0 at the
    start, grows by the transit from index to index (slack 0), and lies between 0 and the
    capacity everywhere, the end included.
  \<^item> Line 87 (\<open>AddPickupAndDelivery\<close>): a pickup is visited before its delivery. Line 88
    (same vehicle) holds of every route of the one vehicle.
  \<^item> Line 89: the cumul at a pickup is at most the cumul at its delivery.
\<close>

definition routing_solution :: "routing_model \<Rightarrow> assignment \<Rightarrow> bool" where
  "routing_solution m nxt =
     (let n = num_nodes m;
          r = visit_order nxt n route_start n;
          tour = r @ [n];
          cs = cumuls (arc_cost m) 0 tour
      in length r = n \<and> distinct r \<and> nxt (last r) = n
         \<and> list_all (\<lambda>c. 0 \<le> c \<and> c \<le> dim_capacity m) cs
         \<and> list_all (\<lambda>(p, d). precedes p d r) (pickup_delivery m)
         \<and> list_all (\<lambda>(p, d). cumul_at tour cs p \<le> cumul_at tour cs d) (cumul_le m))"

text \<open>The objective: the sum of the arc costs along the tour.\<close>

fun tour_cost :: "(nat \<Rightarrow> nat \<Rightarrow> int) \<Rightarrow> nat list \<Rightarrow> int" where
  "tour_cost cost [] = 0"
| "tour_cost cost [i] = 0"
| "tour_cost cost (i # j # r) = cost i j + tour_cost cost (j # r)"

definition objective_value :: "routing_model \<Rightarrow> assignment \<Rightarrow> int" where
  "objective_value m nxt =
     tour_cost (arc_cost m) (visit_order nxt (num_nodes m) route_start (num_nodes m) @ [num_nodes m])"


section \<open>The environment\<close>

text \<open>
  The three calls that leave the program: \<open>model.SolveWithParameters(params)\<close>,
  \<open>requests.get(url, timeout=10).json()\<close> (the URL is determined by the coordinate list;
  an exception of the request or of the JSON decoder is the left injection) and
  \<open>polyline.decode\<close>.
\<close>

record env =
  solve_with_parameters :: "routing_model \<Rightarrow> assignment option"
  osrm_get_json :: "coord list \<Rightarrow> py_error + json"
  polyline_decode :: "json \<Rightarrow> py_error + coord list"

text \<open>The calls to the two services an invocation makes, in order.\<close>

datatype ext_call = Optimizer_call "coord list" | Road_service_call "coord list"

text \<open>
  The solver respects its contract on a model; and it finds a solution when there is one.
\<close>

definition solver_sound :: "env \<Rightarrow> routing_model \<Rightarrow> bool" where
  "solver_sound e m =
     (case solve_with_parameters e m of None \<Rightarrow> True | Some nxt \<Rightarrow> routing_solution m nxt)"

definition solver_complete :: "env \<Rightarrow> routing_model \<Rightarrow> bool" where
  "solver_complete e m =
     ((\<exists>nxt. routing_solution m nxt) \<longrightarrow> solve_with_parameters e m \<noteq> None)"


section \<open>Road network service (\<open>get_osrm_data\<close>, lines 37-47)\<close>

text \<open>Lines 44-45, applied to the decoded response.\<close>

definition parse_route :: "env \<Rightarrow> json \<Rightarrow> py_error + (coord list \<times> json \<times> json)" where
  "parse_route e r =
     bind_err (subscript_key r ''routes'') (\<lambda>routes.
     bind_err (subscript_zero routes) (\<lambda>route.
     bind_err (subscript_key route ''geometry'') (\<lambda>geometry.
     bind_err (polyline_decode e geometry) (\<lambda>road.
     bind_err (subscript_key route ''distance'') (\<lambda>distance.
     bind_err (subscript_key route ''duration'') (\<lambda>duration.
       Inr (road, distance, duration)))))))"

text \<open>The body of the \<open>try\<close> (lines 43-45).\<close>

definition osrm_try :: "env \<Rightarrow> coord list \<Rightarrow> py_error + (coord list \<times> json \<times> json)" where
  "osrm_try e coords_list = bind_err (osrm_get_json e coords_list) (parse_route e)"

text \<open>
  The result and the service calls made. The bare \<open>except:\<close> catches every exception of
  the \<open>try\<close> body, and nothing outside it can raise, so the function returns a plain
  value.
\<close>

definition get_osrm_data :: "env \<Rightarrow> coord list \<Rightarrow> (coord list \<times> json \<times> json) \<times> ext_call list" where
  "get_osrm_data e coords_list =
     (if length coords_list < 2 then (([], JNum 0, JNum 0), [])
      else
        (case osrm_try e coords_list of
           Inl _ \<Rightarrow> (coords_list, JNum 0, JNum 0)
         | Inr res \<Rightarrow> res,
         [Road_service_call coords_list]))"


section \<open>Route optimizer (\<open>solve_vrp\<close>, lines 70-100)\<close>

text \<open>The loop of lines 73-76 on the pair \<open>(locs, pairs)\<close>.\<close>

fun add_passengers ::
  "passenger list \<Rightarrow> coord list \<times> (nat \<times> nat) list \<Rightarrow> coord list \<times> (nat \<times> nat) list" where
  "add_passengers [] acc = acc"
| "add_passengers (p # ps) (locs, pairs) =
     (let p_idx = length locs;
          locs1 = locs @ [coords (start_stop p)];
          d_idx = length locs1;
          locs2 = locs1 @ [coords (end_stop p)]
      in add_passengers ps (locs2, pairs @ [(p_idx, d_idx)]))"

text \<open>\<open>dist_fn\<close> (line 80).\<close>

definition dist_fn :: "coord list \<Rightarrow> nat \<Rightarrow> nat \<Rightarrow> int" where
  "dist_fn locs f t =
     distance_between (locs ! index_to_node (length locs) f) (locs ! index_to_node (length locs) t)"

text \<open>The model of lines 78-92 for the given \<open>locs\<close> and \<open>pairs\<close>.\<close>

definition build_model :: "coord list \<Rightarrow> (nat \<times> nat) list \<Rightarrow> routing_model" where
  "build_model locs pairs =
     \<lparr>num_nodes = length locs,
      arc_cost = dist_fn locs,
      dim_slack_max = 0,
      dim_capacity = 100000,
      dim_fix_start_cumul_to_zero = True,
      pickup_delivery = map (\<lambda>(p, d). (node_to_index p, node_to_index d)) pairs,
      cumul_le = map (\<lambda>(p, d). (node_to_index p, node_to_index d)) pairs,
      strategy = Parallel_cheapest_insertion\<rparr>"

definition vrp_model :: "coord \<Rightarrow> passenger list \<Rightarrow> routing_model" where
  "vrp_model depot_c ps = (case add_passengers ps ([depot_c], []) of (locs, pairs) \<Rightarrow> build_model locs pairs)"

text \<open>
  The loop of lines 95-98, with \<open>path\<close> as accumulator. Nothing in the program bounds it:
  it returns only if following \<open>NextVar\<close> reaches an end index.
\<close>

partial_function (option) follow_route ::
  "assignment \<Rightarrow> nat \<Rightarrow> coord list \<Rightarrow> nat \<Rightarrow> coord list \<Rightarrow> coord list option" where
  "follow_route nxt n locs i path =
     (if is_end n i then Some (path @ [locs ! index_to_node n i])
      else follow_route nxt n locs (nxt i) (path @ [locs ! index_to_node n i]))"

text \<open>
  \<open>solve_vrp\<close>: the pair \<open>(solution, path)\<close> and the service calls made; \<open>None\<close> when the
  extraction loop does not return.
\<close>

definition solve_vrp ::
  "env \<Rightarrow> coord \<Rightarrow> passenger list \<Rightarrow> ((assignment option \<times> coord list) \<times> ext_call list) option" where
  "solve_vrp e depot_c ps =
     (case add_passengers ps ([depot_c], []) of (locs, pairs) \<Rightarrow>
        (case solve_with_parameters e (build_model locs pairs) of
           None \<Rightarrow> Some ((None, []), [Optimizer_call locs])
         | Some nxt \<Rightarrow>
             (case follow_route nxt (length locs) locs route_start [] of
                None \<Rightarrow> None
              | Some path \<Rightarrow> Some ((Some nxt, path), [Optimizer_call locs]))))"


section \<open>Session state and the recompute orchestrator (\<open>update_system\<close>, lines 51-68)\<close>

datatype ui_mode = Idle | Depot_mode | Pass_mode

text \<open>The keys of \<open>st.session_state\<close> (lines 111-115); \<open>None\<close> is \<open>None\<close>.\<close>

record session =
  depot :: coord
  passengers :: "passenger list"
  nearby_stops :: "stop list"
  temp_p :: "stop option"
  current_route_path :: "coord list option"
  summary :: "string list"
  metrics :: "real \<times> real"
  last_click :: "coord option"
  mode :: ui_mode

text \<open>
  How a handler ends: it returns, or an exception leaves it; either way with the session
  state as the handler left it.
\<close>

datatype 'a outcome = Done 'a | Raised py_error 'a

text \<open>The two labels of lines 64 and 66, as UTF-8 bytes.\<close>

definition depot_label :: string where
  "depot_label = [CHR 0xEC, CHR 0xB0, CHR 0xA8, CHR 0xEA, CHR 0xB3, CHR 0xA0, CHR 0xEC, CHR 0xA7, CHR 0x80]"

definition stop_label :: string where
  "stop_label = [CHR 0xEC, CHR 0xA0, CHR 0x95, CHR 0xEB, CHR 0xA5, CHR 0x98, CHR 0xEC, CHR 0x9E, CHR 0xA5]"

text \<open>The name appended for one coordinate of the path (lines 64-67).\<close>

definition name_of_coord :: "session \<Rightarrow> coord \<Rightarrow> string" where
  "name_of_coord s c =
     (if c = depot s then depot_label
      else (case find (\<lambda>st. coords st = c) (nearby_stops s) of
              None \<Rightarrow> stop_label
            | Some st \<Rightarrow> name st))"

text \<open>
  \<open>update_system\<close>: the outcome and the service calls made; \<open>None\<close> when it does not
  return. The tuple of line 60 is evaluated left to right after line 59 has stored the
  road, so a \<open>TypeError\<close> of a division leaves the new road with the old metrics.
\<close>

definition update_system :: "env \<Rightarrow> session \<Rightarrow> (session outcome \<times> ext_call list) option" where
  "update_system e s =
     (if passengers s = [] then
        Some (Done (s\<lparr>current_route_path := None, summary := [], metrics := (0, 0)\<rparr>), [])
      else
        (case solve_vrp e (depot s) (passengers s) of
           None \<Rightarrow> None
         | Some ((sol, path_coords), calls1) \<Rightarrow>
             (case sol of
                None \<Rightarrow> Some (Done s, calls1)
              | Some _ \<Rightarrow>
                  (case get_osrm_data e path_coords of
                     ((road, distance, duration), calls2) \<Rightarrow>
                       (let s1 = s\<lparr>current_route_path := Some road\<rparr> in
                        (case bind_err (py_truediv distance 1000) (\<lambda>km.
                                bind_err (py_truediv duration 60) (\<lambda>minutes. Inr (km, minutes))) of
                           Inl err \<Rightarrow> Some (Raised err s1, calls1 @ calls2)
                         | Inr m \<Rightarrow>
                             Some (Done (s1\<lparr>metrics := m,
                                             summary := map (name_of_coord s1) path_coords\<rparr>),
                                   calls1 @ calls2)))))))"


section \<open>The location-pick handler of \<open>main\<close> (lines 171-185)\<close>




section \<open>Example inputs\<close>

text \<open>The session state that \<open>main\<close> sets up on the first run (lines 111-115).\<close>

definition initial_session :: "stop list \<Rightarrow> session" where
  "initial_session stops =
     \<lparr>depot = (37.661545, 126.747219), passengers = [], nearby_stops = stops, temp_p = None,
      current_route_path = None, summary = [], metrics = (0, 0), last_click = None, mode = Idle\<rparr>"

text \<open>Two stops on the meridian of the initial depot, about 50 m and 160 m north of it.\<close>

definition stop_a :: stop where
  "stop_a = \<lparr>name = ''A'', coords = (37.6620, 126.747219)\<rparr>"

definition stop_b :: stop where
  "stop_b = \<lparr>name = ''B'', coords = (37.6630, 126.747219)\<rparr>"

text \<open>
  An environment in which the solver returns the tour in index order and the road
  service times out; one in which the solver finds nothing.
\<close>

definition env_road_timeout :: env where
  "env_road_timeout =
     \<lparr>solve_with_parameters = (\<lambda>m. Some Suc),
      osrm_get_json = (\<lambda>cs. Inl Timeout),
      polyline_decode = (\<lambda>g. Inl ValueError)\<rparr>"

definition env_no_solution :: env where
  "env_no_solution =
     \<lparr>solve_with_parameters = (\<lambda>m. None),
      osrm_get_json = (\<lambda>cs. Inl ConnectionError),
      polyline_decode = (\<lambda>g. Inl ValueError)\<rparr>"

text \<open>
  An environment whose road service answers as OSRM does when it finds no route: a JSON
  object with an empty list of routes.
\<close>

definition env_road_no_route :: env where
  "env_road_no_route =
     \<lparr>solve_with_parameters = (\<lambda>m. Some Suc),
      osrm_get_json = (\<lambda>cs. Inr (JObj [(''code'', JStr ''NoRoute''), (''routes'', JArr [])])),
      polyline_decode = (\<lambda>g. Inl ValueError)\<rparr>"

text \<open>
  An environment whose road service answers with a route of the expected shape but with
  values of the wrong type: the distance is a string and the duration is \<open>null\<close>. The
  geometry is the encoded polyline of the single point \<open>(38.5, -120.2)\<close>.
\<close>

definition env_road_wrong_types :: env where
  "env_road_wrong_types =
     \<lparr>solve_with_parameters = (\<lambda>m. Some Suc),
      osrm_get_json = (\<lambda>cs. Inr (JObj [(''code'', JStr ''Ok''),
                                        (''routes'', JArr [JObj [(''geometry'', JStr ''_p~iF~ps|U''),
                                                                 (''distance'', JStr ''far''),
                                                                 (''duration'', JNull)]])])),
      polyline_decode = (\<lambda>g. if g = JStr ''_p~iF~ps|U'' then Inr [(38.5, -120.2)]
                              else Inl ValueError)\<rparr>"


text \<open>The request from \<open>stop_a\<close> to \<open>stop_b\<close>.\<close>

definition request_ab :: passenger where
  "request_ab = \<lparr>start_stop = stop_a, end_stop = stop_b\<rparr>"

text \<open>The initial depot, and a depot two degrees of latitude (about 222 km) north of it.\<close>

definition home_depot :: coord where
  "home_depot = depot (initial_session [])"

definition far_depot :: coord where
  "far_depot = (39.661545, 126.747219)"

text \<open>
  A session with one request from \<open>stop_a\<close> to \<open>stop_b\<close> and a route plan on display,
  whose depot has then been set to \<open>far_depot\<close>.
\<close>

definition session_one_request :: session where
  "session_one_request =
     (initial_session [stop_a, stop_b])
       \<lparr>depot := far_depot,
        passengers := [\<lparr>start_stop = stop_a, end_stop = stop_b\<rparr>],
        current_route_path := Some [coords stop_a, coords stop_b], summary := [''A'', ''B''],
        metrics := (3, 7), mode := Depot_mode\<rparr>"




text \<open>The coordinates \<open>solve_vrp\<close> appends to \<open>locs\<close> after the depot.\<close>

abbreviation stop_coords :: "passenger list \<Rightarrow> coord list" where
  "stop_coords ps \<equiv> concat (map (\<lambda>p. [coords (start_stop p), coords (end_stop p)]) ps)"


section \<open>Properties of the geo distance\<close>

subsection \<open>The haversine term and the unit sphere\<close>

lemma sin_half_sq: "(sin (x / 2))\<^sup>2 = (1 - cos x) / (2::real)"
  using cos_double_sin [of "x / 2"] by simp

lemma radians_diff: "radians (x - y) = radians x - radians y"
  by (simp add: radians_def left_diff_distrib)

lemma haversine_a_dot:
  "haversine_a lat1 lon1 lat2 lon2 =
     (1 - unit_dot (radians lat1) (radians lon1) (radians lat2) (radians lon2)) / 2"
  unfolding haversine_a_def Let_def sin_half_sq radians_diff unit_dot_def cos_diff
  by (simp add: field_simps)

lemma gram3:
  fixes a1 a2 a3 b1 b2 b3 c1 c2 c3 :: real
  shows "(a1\<^sup>2 + a2\<^sup>2 + a3\<^sup>2) * (b1\<^sup>2 + b2\<^sup>2 + b3\<^sup>2) * (c1\<^sup>2 + c2\<^sup>2 + c3\<^sup>2)
       - (a1\<^sup>2 + a2\<^sup>2 + a3\<^sup>2) * (b1*c1 + b2*c2 + b3*c3)\<^sup>2
       - (b1\<^sup>2 + b2\<^sup>2 + b3\<^sup>2) * (a1*c1 + a2*c2 + a3*c3)\<^sup>2
       - (c1\<^sup>2 + c2\<^sup>2 + c3\<^sup>2) * (a1*b1 + a2*b2 + a3*b3)\<^sup>2
       + 2 * (a1*b1 + a2*b2 + a3*b3) * (b1*c1 + b2*c2 + b3*c3) * (a1*c1 + a2*c2 + a3*c3)
       = (a1 * (b2*c3 - b3*c2) - a2 * (b1*c3 - b3*c1) + a3 * (b1*c2 - b2*c1))\<^sup>2"
  by algebra

lemma unit_norm: "(cos p * cos l)\<^sup>2 + (cos p * sin l)\<^sup>2 + (sin p)\<^sup>2 = (1::real)"
proof -
  have "(cos p * cos l)\<^sup>2 + (cos p * sin l)\<^sup>2 = (cos p)\<^sup>2 * ((cos l)\<^sup>2 + (sin l)\<^sup>2)"
    by (simp only: power_mult_distrib distrib_left)
  also have "\<dots> = (cos p)\<^sup>2" by simp
  finally show ?thesis by simp
qed

lemma unit_dot_le_1: "unit_dot p1 l1 p2 l2 \<le> 1"
proof -
  let ?a1 = "cos p1 * cos l1" and ?a2 = "cos p1 * sin l1" and ?a3 = "sin p1"
  let ?b1 = "cos p2 * cos l2" and ?b2 = "cos p2 * sin l2" and ?b3 = "sin p2"
  have "0 \<le> (?a1 - ?b1)\<^sup>2 + (?a2 - ?b2)\<^sup>2 + (?a3 - ?b3)\<^sup>2" by simp
  also have "\<dots> = (?a1\<^sup>2 + ?a2\<^sup>2 + ?a3\<^sup>2) + (?b1\<^sup>2 + ?b2\<^sup>2 + ?b3\<^sup>2)
       - 2 * (?a1 * ?b1 + ?a2 * ?b2 + ?a3 * ?b3)"
    by (simp add: power2_diff algebra_simps)
  also have "\<dots> = 2 - 2 * unit_dot p1 l1 p2 l2"
    unfolding unit_norm unit_dot_def by simp
  finally show ?thesis by simp
qed

lemma unit_dot_ge_m1: "- 1 \<le> unit_dot p1 l1 p2 l2"
proof -
  let ?a1 = "cos p1 * cos l1" and ?a2 = "cos p1 * sin l1" and ?a3 = "sin p1"
  let ?b1 = "cos p2 * cos l2" and ?b2 = "cos p2 * sin l2" and ?b3 = "sin p2"
  have "0 \<le> (?a1 + ?b1)\<^sup>2 + (?a2 + ?b2)\<^sup>2 + (?a3 + ?b3)\<^sup>2" by simp
  also have "\<dots> = (?a1\<^sup>2 + ?a2\<^sup>2 + ?a3\<^sup>2) + (?b1\<^sup>2 + ?b2\<^sup>2 + ?b3\<^sup>2)
       + 2 * (?a1 * ?b1 + ?a2 * ?b2 + ?a3 * ?b3)"
    by (simp add: power2_sum algebra_simps)
  also have "\<dots> = 2 + 2 * unit_dot p1 l1 p2 l2"
    unfolding unit_norm unit_dot_def by simp
  finally show ?thesis by simp
qed

lemma unit_dot_abs: "\<bar>unit_dot p1 l1 p2 l2\<bar> \<le> 1"
  using unit_dot_le_1 [of p1 l1 p2 l2] unit_dot_ge_m1 [of p1 l1 p2 l2] by simp

lemma unit_dot_gram:
  "0 \<le> 1 - (unit_dot pa la pb lb)\<^sup>2 - (unit_dot pb lb pc lc)\<^sup>2 - (unit_dot pa la pc lc)\<^sup>2
        + 2 * unit_dot pa la pb lb * unit_dot pb lb pc lc * unit_dot pa la pc lc"
proof -
  let ?a1 = "cos pa * cos la" and ?a2 = "cos pa * sin la" and ?a3 = "sin pa"
  let ?b1 = "cos pb * cos lb" and ?b2 = "cos pb * sin lb" and ?b3 = "sin pb"
  let ?c1 = "cos pc * cos lc" and ?c2 = "cos pc * sin lc" and ?c3 = "sin pc"
  have "0 \<le> (?a1 * (?b2 * ?c3 - ?b3 * ?c2) - ?a2 * (?b1 * ?c3 - ?b3 * ?c1)
              + ?a3 * (?b1 * ?c2 - ?b2 * ?c1))\<^sup>2"
    by (rule zero_le_power2)
  then show ?thesis
    unfolding gram3 [symmetric] unit_norm unit_dot_def by simp
qed

lemma haversine_a_range:
  "0 \<le> haversine_a lat1 lon1 lat2 lon2 \<and> haversine_a lat1 lon1 lat2 lon2 \<le> 1"
  using unit_dot_le_1 [of "radians lat1" "radians lon1" "radians lat2" "radians lon2"]
        unit_dot_ge_m1 [of "radians lat1" "radians lon1" "radians lat2" "radians lon2"]
  by (simp add: haversine_a_dot)

lemma atan2_sqrt_arcsin:
  assumes "0 \<le> a" "a \<le> 1"
  shows "atan2 (sqrt a) (sqrt (1 - a)) = arcsin (sqrt a)"
proof -
  let ?s = "sqrt a"
  let ?t = "arcsin ?s"
  have s0: "0 \<le> ?s" and s1: "?s \<le> 1" using assms by (simp_all add: real_sqrt_le_1_iff)
  have sm: "- 1 \<le> ?s" using s0 by linarith
  note s01 = s0 s1 sm
  have sin_t: "sin ?t = ?s" by (rule sin_arcsin) (rule s01)+
  have "cos ?t = sqrt (1 - ?s\<^sup>2)" by (rule cos_arcsin) (rule s01)+
  then have cos_t: "cos ?t = sqrt (1 - a)" using assms by simp
  have t_bounds: "0 \<le> ?t" "?t \<le> pi / 2"
  proof -
    show "0 \<le> ?t" using arcsin_le_arcsin [OF _ s01(1) s01(2)] by simp
    show "?t \<le> pi / 2" by (rule arcsin_ubound) (rule s01)+
  qed
  show ?thesis
  proof (cases "a = 1")
    case True
    then show ?thesis by (simp add: atan2_def)
  next
    case False
    then have pos: "0 < sqrt (1 - a)" using assms by simp
    then have "?t \<noteq> pi / 2" using cos_t by (metis cos_pi_half less_irrefl)
    then have lt: "?t < pi / 2" using t_bounds by simp
    have "arctan (tan ?t) = ?t"
      by (rule arctan_tan) (use t_bounds lt in auto)
    moreover have "tan ?t = ?s / sqrt (1 - a)"
      by (simp only: tan_def sin_t cos_t)
    ultimately show ?thesis using pos by (simp add: atan2_def)
  qed
qed

lemma two_arcsin_sqrt:
  assumes "0 \<le> a" "a \<le> 1"
  shows "2 * arcsin (sqrt a) = arccos (1 - 2 * a)"
proof -
  let ?t = "arcsin (sqrt a)"
  have s0: "0 \<le> sqrt a" and s1: "sqrt a \<le> 1" using assms by (simp_all add: real_sqrt_le_1_iff)
  have sm: "- 1 \<le> sqrt a" using s0 by linarith
  note s01 = s0 s1 sm
  have t_bounds: "0 \<le> ?t" "?t \<le> pi / 2"
  proof -
    show "0 \<le> ?t" using arcsin_le_arcsin [OF _ s01(1) s01(2)] by simp
    show "?t \<le> pi / 2" by (rule arcsin_ubound) (rule s01)+
  qed
  have sin_t: "sin ?t = sqrt a" by (rule sin_arcsin) (rule s01)+
  have "cos (2 * ?t) = 1 - 2 * (sin ?t)\<^sup>2" by (rule cos_double_sin)
  also have "\<dots> = 1 - 2 * a" unfolding sin_t using assms by simp
  finally have "arccos (1 - 2 * a) = arccos (cos (2 * ?t))" by simp
  also have "\<dots> = 2 * ?t" by (rule arccos_cos) (use t_bounds in auto)
  finally show ?thesis by simp
qed

lemma arccos_triangle:
  fixes x y z :: real
  assumes x: "\<bar>x\<bar> \<le> 1" and y: "\<bar>y\<bar> \<le> 1" and z: "\<bar>z\<bar> \<le> 1"
    and gram: "0 \<le> 1 - x\<^sup>2 - y\<^sup>2 - z\<^sup>2 + 2 * x * y * z"
  shows "arccos z \<le> arccos x + arccos y"
proof (cases "arccos x + arccos y \<le> pi")
  case False
  moreover have "arccos z \<le> pi" using z by (intro arccos_ubound) auto
  ultimately show ?thesis by simp
next
  case True
  let ?A = "arccos x" and ?B = "arccos y"
  have A: "0 \<le> ?A" and B: "0 \<le> ?B" using x y by (auto intro!: arccos_lbound)
  have sA: "sin ?A = sqrt (1 - x\<^sup>2)" and sB: "sin ?B = sqrt (1 - y\<^sup>2)"
    using x y by (simp_all add: sin_arccos_abs)
  have cA: "cos ?A = x" and cB: "cos ?B = y" using x y by (simp_all add: cos_arccos_abs)
  have x2: "0 \<le> 1 - x\<^sup>2" and y2: "0 \<le> 1 - y\<^sup>2"
    using x y by (simp_all add: abs_square_le_1)
  have "(x * y - z)\<^sup>2 \<le> (1 - x\<^sup>2) * (1 - y\<^sup>2)"
    using gram by (simp add: power2_diff algebra_simps power_mult_distrib)
  also have "\<dots> = (sqrt (1 - x\<^sup>2) * sqrt (1 - y\<^sup>2))\<^sup>2"
    using x2 y2 by (simp add: power_mult_distrib)
  finally have "\<bar>x * y - z\<bar> \<le> \<bar>sqrt (1 - x\<^sup>2) * sqrt (1 - y\<^sup>2)\<bar>"
    by (simp only: abs_le_square_iff)
  then have "x * y - z \<le> sqrt (1 - x\<^sup>2) * sqrt (1 - y\<^sup>2)"
    using x2 y2 by (simp add: abs_mult)
  then have "cos (?A + ?B) \<le> z"
    by (simp add: cos_add cA cB sA sB)
  moreover have "\<bar>cos (?A + ?B)\<bar> \<le> 1" by (rule abs_cos_le_one)
  ultimately have "arccos z \<le> arccos (cos (?A + ?B))"
    using z by (simp add: arccos_le_mono)
  also have "\<dots> = ?A + ?B" using A B True by (intro arccos_cos) auto
  finally show ?thesis .
qed

lemma get_distance_untruncated:
  "2 * 6371000 * atan2 (sqrt (haversine_a lat1 lon1 lat2 lon2)) (sqrt (1 - haversine_a lat1 lon1 lat2 lon2))
     = great_circle (lat1, lon1) (lat2, lon2)"
proof -
  let ?a = "haversine_a lat1 lon1 lat2 lon2"
  have r: "0 \<le> ?a" "?a \<le> 1" using haversine_a_range by auto
  have "2 * atan2 (sqrt ?a) (sqrt (1 - ?a)) = arccos (1 - 2 * ?a)"
    using atan2_sqrt_arcsin [OF r] two_arcsin_sqrt [OF r] by simp
  also have "1 - 2 * ?a = unit_dot (radians lat1) (radians lon1) (radians lat2) (radians lon2)"
    by (simp add: haversine_a_dot field_simps)
  finally show ?thesis by (simp add: great_circle_def)
qed

lemma great_circle_nonneg: "0 \<le> great_circle p q"
  unfolding great_circle_def
  using arccos_lbound unit_dot_le_1 unit_dot_ge_m1 by simp

lemma distance_between_floor: "distance_between p q = \<lfloor>great_circle p q\<rfloor>"
  unfolding distance_between_def get_distance_def Let_def
  using get_distance_untruncated [of "fst p" "snd p" "fst q" "snd q"] great_circle_nonneg [of p q]
  by (simp add: py_int_def)

lemma great_circle_triangle: "great_circle p r \<le> great_circle p q + great_circle q r"
proof -
  have "arccos (unit_dot (radians (fst p)) (radians (snd p)) (radians (fst r)) (radians (snd r)))
      \<le> arccos (unit_dot (radians (fst p)) (radians (snd p)) (radians (fst q)) (radians (snd q)))
        + arccos (unit_dot (radians (fst q)) (radians (snd q)) (radians (fst r)) (radians (snd r)))"
    by (rule arccos_triangle) (rule unit_dot_abs unit_dot_gram)+
  then show ?thesis by (simp add: great_circle_def algebra_simps)
qed

lemma pi_ge_3: "3 \<le> pi"
proof -
  have "sin (pi / 6) \<le> pi / 6" by (rule sin_x_le_x) simp
  then show ?thesis by (simp add: sin_30)
qed

lemma great_circle_same_lon:
  assumes "\<bar>lat2 - lat1\<bar> \<le> 180"
  shows "great_circle (lat1, lon) (lat2, lon) = 6371000 * (\<bar>lat2 - lat1\<bar> * (pi / 180))"
proof -
  have "unit_dot (radians lat1) (radians lon) (radians lat2) (radians lon)
      = cos (radians lat1) * cos (radians lat2) * ((cos (radians lon))\<^sup>2 + (sin (radians lon))\<^sup>2)
        + sin (radians lat1) * sin (radians lat2)"
    unfolding unit_dot_def by algebra
  also have "\<dots> = cos (radians lat2 - radians lat1)" by (simp add: cos_diff)
  also have "\<dots> = cos (radians (lat2 - lat1))" by (simp add: radians_diff)
  finally have "arccos (unit_dot (radians lat1) (radians lon) (radians lat2) (radians lon))
      = arccos (cos (radians (lat2 - lat1)))" by simp
  also have "\<dots> = \<bar>radians (lat2 - lat1)\<bar>"
  proof (rule arccos_cos_eq_abs)
    have "\<bar>radians (lat2 - lat1)\<bar> = \<bar>lat2 - lat1\<bar> * (pi / 180)"
      by (simp add: radians_def abs_mult)
    also have "\<dots> \<le> 180 * (pi / 180)" using assms by (intro mult_right_mono) auto
    finally show "\<bar>radians (lat2 - lat1)\<bar> \<le> pi" by simp
  qed
  also have "\<dots> = \<bar>lat2 - lat1\<bar> * (pi / 180)" by (simp add: radians_def abs_mult)
  finally show ?thesis by (simp only: great_circle_def fst_conv snd_conv)
qed

lemma distance_same_lon_bounds:
  assumes "\<bar>lat2 - lat1\<bar> \<le> 180"
  shows "\<lfloor>6371000 * \<bar>lat2 - lat1\<bar> / 60\<rfloor> \<le> distance_between (lat1, lon) (lat2, lon)"
    and "distance_between (lat1, lon) (lat2, lon) \<le> \<lfloor>6371000 * \<bar>lat2 - lat1\<bar> / 45\<rfloor>"
proof -
  have eq: "distance_between (lat1, lon) (lat2, lon) = \<lfloor>6371000 * (\<bar>lat2 - lat1\<bar> * (pi / 180))\<rfloor>"
    by (simp add: distance_between_floor great_circle_same_lon [OF assms])
  have "\<bar>lat2 - lat1\<bar> * 3 \<le> \<bar>lat2 - lat1\<bar> * pi"
    by (intro mult_left_mono pi_ge_3) simp
  then have "6371000 * \<bar>lat2 - lat1\<bar> / 60 \<le> 6371000 * (\<bar>lat2 - lat1\<bar> * (pi / 180))"
    by (simp add: mult.commute)
  then show "\<lfloor>6371000 * \<bar>lat2 - lat1\<bar> / 60\<rfloor> \<le> distance_between (lat1, lon) (lat2, lon)"
    unfolding eq by (rule floor_mono)
  have "\<bar>lat2 - lat1\<bar> * pi \<le> \<bar>lat2 - lat1\<bar> * 4"
    by (intro mult_left_mono) (use pi_less_4 in auto)
  then have "6371000 * (\<bar>lat2 - lat1\<bar> * (pi / 180)) \<le> 6371000 * \<bar>lat2 - lat1\<bar> / 45"
    by (simp add: mult.commute)
  then show "distance_between (lat1, lon) (lat2, lon) \<le> \<lfloor>6371000 * \<bar>lat2 - lat1\<bar> / 45\<rfloor>"
    unfolding eq by (rule floor_mono)
qed


text \<open>
  For two points opposite each other on the globe the haversine term is exactly 1, the
  very bound of the domain of \<open>math.sqrt(1 - a)\<close>: a double that exceeds the exact value
  by one unit in the last place leaves the domain.
\<close>

lemma haversine_a_antipodal: "haversine_a lat lon (- lat) (lon + 180) = 1"
proof -
  have 1: "radians (- lat - lat) / 2 = - radians lat" by (simp add: radians_def)
  have 2: "radians (lon + 180 - lon) / 2 = pi / 2" by (simp add: radians_def)
  have 3: "radians (- lat) = - radians lat" by (simp add: radians_def)
  show ?thesis
    unfolding haversine_a_def Let_def 1 2 3
    by (simp add: power2_eq_square [symmetric])
qed

text \<open>The exact value is one of the values \<open>float_distance\<close> admits, whatever the error.\<close>

lemma float_distance_exact:
  assumes "0 \<le> err"
  shows "float_distance err lat1 lon1 lat2 lon2 (get_distance lat1 lon1 lat2 lon2)"
proof -
  let ?x = "2 * 6371000 * atan2 (sqrt (haversine_a lat1 lon1 lat2 lon2))
                                (sqrt (1 - haversine_a lat1 lon1 lat2 lon2))"
  have "0 \<le> ?x"
    unfolding get_distance_untruncated by (rule great_circle_nonneg)
  moreover have "\<bar>?x - ?x\<bar> \<le> err" using assms by simp
  moreover have "get_distance lat1 lon1 lat2 lon2 = py_int ?x"
    by (simp add: get_distance_def Let_def)
  ultimately show ?thesis
    unfolding float_distance_def Let_def by blast
qed

lemma float_distance_bounds:
  assumes "float_distance err lat1 lon1 lat2 lon2 d"
  shows "of_int d \<le> great_circle (lat1, lon1) (lat2, lon2) + err"
    and "great_circle (lat1, lon1) (lat2, lon2) - err < of_int d + 1"
proof -
  from assms obtain v where v: "0 \<le> v"
    and e: "\<bar>v - great_circle (lat1, lon1) (lat2, lon2)\<bar> \<le> err" and d: "d = py_int v"
    unfolding float_distance_def Let_def get_distance_untruncated by blast
  from v d have f: "d = \<lfloor>v\<rfloor>" by (simp add: py_int_def)
  have "of_int d \<le> v" "v < of_int d + 1" unfolding f by linarith+
  with e show "of_int d \<le> great_circle (lat1, lon1) (lat2, lon2) + err"
    and "great_circle (lat1, lon1) (lat2, lon2) - err < of_int d + 1"
    by linarith+
qed

lemma meridian_triple:
  "get_distance 37.661545 126.747219 37.661559 126.747219 = 1"
  "get_distance 37.661545 126.747219 37.661552 126.747219 = 0"
  "get_distance 37.661552 126.747219 37.661559 126.747219 = 0"
proof -
  have ac: "distance_between (37.661545, 126.747219) (37.661559, 126.747219) = 1"
  proof -
    have "\<bar>37.661559 - 37.661545 :: real\<bar> \<le> 180" by simp
    from distance_same_lon_bounds [OF this, of "126.747219"] show ?thesis by simp
  qed
  have ab: "distance_between (37.661545, 126.747219) (37.661552, 126.747219) = 0"
  proof -
    have "\<bar>37.661552 - 37.661545 :: real\<bar> \<le> 180" by simp
    from distance_same_lon_bounds [OF this, of "126.747219"] show ?thesis by simp
  qed
  have bc: "distance_between (37.661552, 126.747219) (37.661559, 126.747219) = 0"
  proof -
    have "\<bar>37.661559 - 37.661552 :: real\<bar> \<le> 180" by simp
    from distance_same_lon_bounds [OF this, of "126.747219"] show ?thesis by simp
  qed
  from ac show "get_distance 37.661545 126.747219 37.661559 126.747219 = 1"
    by (simp add: distance_between_def)
  from ab show "get_distance 37.661545 126.747219 37.661552 126.747219 = 0"
    by (simp add: distance_between_def)
  from bc show "get_distance 37.661552 126.747219 37.661559 126.747219 = 0"
    by (simp add: distance_between_def)
qed


subsection \<open>Claims about \<open>get_distance\<close>\<close>

text \<open>
  Claim C9, as stated, fails: the truncation of line 35 loses up to a metre per leg.
  Three points on one meridian, 0.000007 degrees of latitude (about 0.78 m) apart: both
  short legs have distance 0, the long one has distance 1.
\<close>

theorem get_distance_triangle_counterexample:
  "get_distance 37.661545 126.747219 37.661559 126.747219 = 1
   \<and> get_distance 37.661545 126.747219 37.661552 126.747219 = 0
   \<and> get_distance 37.661552 126.747219 37.661559 126.747219 = 0
   \<and> \<not> (get_distance 37.661545 126.747219 37.661559 126.747219
          \<le> get_distance 37.661545 126.747219 37.661552 126.747219
            + get_distance 37.661552 126.747219 37.661559 126.747219)"
  using meridian_triple by simp

text \<open>
  Claim C9, amended: for every three coordinates A, B, C for which the three calls of
  \<open>get_distance\<close> return, the distance from A to C is at most the distance from A to B plus
  the distance from B to C plus 2 metres, provided the three doubles that line 35
  truncates miss their exact values by no more than one metre in total. The tolerance is
  a matter of whole metres, not of floating point: the truncation alone costs up to one
  metre per leg, and the rounding can move a value across a whole number.
\<close>

theorem float_distance_triangle:
  assumes "float_distance e_ab a_lat a_lon b_lat b_lon d_ab"
    and "float_distance e_bc b_lat b_lon c_lat c_lon d_bc"
    and "float_distance e_ac a_lat a_lon c_lat c_lon d_ac"
    and "e_ab + e_bc + e_ac \<le> 1"
  shows "d_ac \<le> d_ab + d_bc + 2"
proof -
  have "of_int d_ac \<le> great_circle (a_lat, a_lon) (c_lat, c_lon) + e_ac"
    by (rule float_distance_bounds(1) [OF assms(3)])
  also have "\<dots> \<le> great_circle (a_lat, a_lon) (b_lat, b_lon)
                 + great_circle (b_lat, b_lon) (c_lat, c_lon) + e_ac"
    using great_circle_triangle [of "(a_lat, a_lon)" "(c_lat, c_lon)" "(b_lat, b_lon)"] by simp
  also have "\<dots> < (of_int d_ab + 1 + e_ab) + (of_int d_bc + 1 + e_bc) + e_ac"
    using float_distance_bounds(2) [OF assms(1)] float_distance_bounds(2) [OF assms(2)]
    by linarith
  also have "\<dots> \<le> of_int d_ab + of_int d_bc + 3" using assms(4) by linarith
  finally have "real_of_int d_ac < of_int (d_ab + d_bc + 3)" by simp
  then show ?thesis by linarith
qed

theorem float_distance_triangle_witness:
  "float_distance (1/4) 37.661545 126.747219 37.661552 126.747219 0
   \<and> float_distance (1/4) 37.661552 126.747219 37.661559 126.747219 0
   \<and> float_distance (1/4) 37.661545 126.747219 37.661559 126.747219 1
   \<and> (1/4 + 1/4 + 1/4 :: real) \<le> 1
   \<and> (1 :: int) \<le> 0 + 0 + 2"
proof -
  have ab: "float_distance (1/4) 37.661545 126.747219 37.661552 126.747219 0"
    using float_distance_exact [of "1/4" "37.661545" "126.747219" "37.661552" "126.747219"]
    using meridian_triple(2) by simp
  have bc: "float_distance (1/4) 37.661552 126.747219 37.661559 126.747219 0"
    using float_distance_exact [of "1/4" "37.661552" "126.747219" "37.661559" "126.747219"]
    using meridian_triple(3) by simp
  have ac: "float_distance (1/4) 37.661545 126.747219 37.661559 126.747219 1"
    using float_distance_exact [of "1/4" "37.661545" "126.747219" "37.661559" "126.747219"]
    using meridian_triple(1) by simp
  have s: "(1/4 + 1/4 + 1/4 :: real) \<le> 1" by simp
  from float_distance_triangle [OF ab bc ac s] ab bc ac s show ?thesis by simp
qed



section \<open>Properties of the road network service and the recompute orchestrator\<close>

lemma bind_err_Inl [simp]: "bind_err (Inl e) f = Inl e"
  by (simp add: bind_err_def)

lemma bind_err_Inr [simp]: "bind_err (Inr v) f = f v"
  by (simp add: bind_err_def)

text \<open>
  Claim C2. For every environment and every state whose request set is empty,
  \<open>update_system\<close> returns normally with the route plan cleared (no path, empty name
  list, metrics \<open>(0, 0)\<close>), the rest of the state untouched, and with no call to the
  optimizer or to the road network service (the list of calls is empty).
\<close>

theorem update_system_empty:
  assumes "passengers s = []"
  shows "update_system e s =
           Some (Done (s\<lparr>current_route_path := None, summary := [], metrics := (0, 0)\<rparr>), [])"
  using assms by (simp add: update_system_def)

theorem update_system_empty_witness:
  "passengers ((initial_session [stop_a, stop_b])
       \<lparr>current_route_path := Some [coords stop_a, coords stop_b], summary := [''A'', ''B''],
        metrics := (3, 7)\<rparr>) = []
   \<and> update_system env_road_timeout
        ((initial_session [stop_a, stop_b])
           \<lparr>current_route_path := Some [coords stop_a, coords stop_b], summary := [''A'', ''B''],
            metrics := (3, 7)\<rparr>)
     = Some (Done (initial_session [stop_a, stop_b]), [])"
  using update_system_empty [of "(initial_session [stop_a, stop_b])
       \<lparr>current_route_path := Some [coords stop_a, coords stop_b], summary := [''A'', ''B''],
        metrics := (3, 7)\<rparr>" env_road_timeout]
  by (simp add: initial_session_def)

lemma parse_route_not_object:
  "(\<forall>kvs. r \<noteq> JObj kvs) \<Longrightarrow> parse_route e r = Inl TypeError"
  by (cases r) (simp_all add: parse_route_def)

lemma parse_route_no_routes:
  "map_of (rev kvs) ''routes'' = None \<Longrightarrow> parse_route e (JObj kvs) = Inl KeyError"
  by (simp add: parse_route_def)

lemma parse_route_empty_routes:
  "map_of (rev kvs) ''routes'' = Some (JArr []) \<Longrightarrow> parse_route e (JObj kvs) = Inl IndexError"
  by (simp add: parse_route_def)

text \<open>
  Claim C3, as stated, fails for a malformed response on which lines 44-45 do not raise.
  The service answers with a route whose distance is the string \<open>far\<close> and whose
  duration is \<open>null\<close>: \<open>get_osrm_data\<close> returns the decoded geometry with these two
  values as they are, not the input list with distance 0 and duration 0; the division
  \<open>dist / 1000\<close> of line 60 then raises \<open>TypeError\<close> in the caller.
\<close>

theorem get_osrm_data_malformed_counterexample:
  "2 \<le> length [coords stop_a, coords stop_b]
   \<and> osrm_get_json env_road_wrong_types [coords stop_a, coords stop_b]
       = Inr (JObj [(''code'', JStr ''Ok''),
                    (''routes'', JArr [JObj [(''geometry'', JStr ''_p~iF~ps|U''),
                                             (''distance'', JStr ''far''),
                                             (''duration'', JNull)]])])
   \<and> get_osrm_data env_road_wrong_types [coords stop_a, coords stop_b]
       = (([(38.5, -120.2)], JStr ''far'', JNull), [Road_service_call [coords stop_a, coords stop_b]])
   \<and> get_osrm_data env_road_wrong_types [coords stop_a, coords stop_b]
       \<noteq> (([coords stop_a, coords stop_b], JNum 0, JNum 0),
          [Road_service_call [coords stop_a, coords stop_b]])
   \<and> py_truediv (JStr ''far'') 1000 = Inl TypeError"
  by (simp add: get_osrm_data_def osrm_try_def parse_route_def env_road_wrong_types_def)

text \<open>
  Claim C3, amended: for every coordinate list of length at least 2, if the request raises
  (network error, timeout, a body that is not JSON) or lines 44-45 raise on the decoded
  response (it is no object, has no route, lacks the geometry, the distance or the
  duration, or its geometry does not decode), \<open>get_osrm_data\<close> returns the input list
  itself as the geometry with distance 0 and duration 0, after its one call of the
  service. Its result is a plain value: no exception leaves it.
\<close>

theorem get_osrm_data_fallback:
  assumes "2 \<le> length coords_list"
    and "osrm_get_json e coords_list = Inl err
         \<or> (\<exists>r. osrm_get_json e coords_list = Inr r \<and> parse_route e r = Inl err)"
  shows "get_osrm_data e coords_list
           = ((coords_list, JNum 0, JNum 0), [Road_service_call coords_list])"
proof -
  have "osrm_try e coords_list = Inl err"
    using assms(2) by (auto simp: osrm_try_def)
  then show ?thesis using assms(1) by (simp add: get_osrm_data_def)
qed

theorem get_osrm_data_fallback_witness:
  "2 \<le> length [depot (initial_session []), coords stop_a, coords stop_b, depot (initial_session [])]
   \<and> osrm_get_json env_road_timeout
        [depot (initial_session []), coords stop_a, coords stop_b, depot (initial_session [])] = Inl Timeout
   \<and> get_osrm_data env_road_timeout
        [depot (initial_session []), coords stop_a, coords stop_b, depot (initial_session [])]
      = (([depot (initial_session []), coords stop_a, coords stop_b, depot (initial_session [])],
          JNum 0, JNum 0),
         [Road_service_call
            [depot (initial_session []), coords stop_a, coords stop_b, depot (initial_session [])]])
   \<and> parse_route env_road_no_route (JObj [(''code'', JStr ''NoRoute''), (''routes'', JArr [])])
        = Inl IndexError
   \<and> get_osrm_data env_road_no_route [coords stop_a, coords stop_b]
      = (([coords stop_a, coords stop_b], JNum 0, JNum 0),
         [Road_service_call [coords stop_a, coords stop_b]])"
proof -
  let ?cs = "[depot (initial_session []), coords stop_a, coords stop_b, depot (initial_session [])]"
  have t: "osrm_get_json env_road_timeout ?cs = Inl Timeout"
    by (simp add: env_road_timeout_def)
  have p: "parse_route env_road_no_route (JObj [(''code'', JStr ''NoRoute''), (''routes'', JArr [])])
        = Inl IndexError"
    by (simp add: parse_route_def)
  have g: "osrm_get_json env_road_no_route [coords stop_a, coords stop_b]
        = Inr (JObj [(''code'', JStr ''NoRoute''), (''routes'', JArr [])])"
    by (simp add: env_road_no_route_def)
  have 1: "get_osrm_data env_road_timeout ?cs = ((?cs, JNum 0, JNum 0), [Road_service_call ?cs])"
    by (rule get_osrm_data_fallback [where err = Timeout]) (simp_all add: t)
  have 2: "get_osrm_data env_road_no_route [coords stop_a, coords stop_b]
      = (([coords stop_a, coords stop_b], JNum 0, JNum 0),
         [Road_service_call [coords stop_a, coords stop_b]])"
    by (rule get_osrm_data_fallback [where err = IndexError]) (simp_all add: g p)
  show ?thesis using t p 1 2 by simp
qed

lemma solve_vrp_solver_none:
  assumes "solve_with_parameters e (vrp_model d ps) = None"
  shows "solve_vrp e d ps = Some ((None, []), [Optimizer_call (fst (add_passengers ps ([d], [])))])"
  using assms by (simp add: solve_vrp_def vrp_model_def split: prod.splits)

text \<open>
  Claim C10. For every state with a non-empty request set: if \<open>solve_vrp\<close> returns no
  solution, \<open>update_system\<close> returns normally and leaves the whole session state, the
  route plan in particular, as it was; the only calls made are those of \<open>solve_vrp\<close>.
\<close>

theorem update_system_no_solution:
  assumes "passengers s \<noteq> []"
    and "solve_vrp e (depot s) (passengers s) = Some ((None, path), calls)"
  shows "update_system e s = Some (Done s, calls)"
  using assms by (simp add: update_system_def)

theorem update_system_no_solution_witness:
  "passengers session_one_request \<noteq> []
   \<and> solve_vrp env_no_solution (depot session_one_request) (passengers session_one_request)
       = Some ((None, []), [Optimizer_call [depot session_one_request, coords stop_a, coords stop_b]])
   \<and> update_system env_no_solution session_one_request
       = Some (Done session_one_request,
               [Optimizer_call [depot session_one_request, coords stop_a, coords stop_b]])"
proof -
  have p: "passengers session_one_request \<noteq> []" by (simp add: session_one_request_def)
  have s: "solve_vrp env_no_solution (depot session_one_request) (passengers session_one_request)
       = Some ((None, []), [Optimizer_call [depot session_one_request, coords stop_a, coords stop_b]])"
    by (simp add: solve_vrp_def env_no_solution_def session_one_request_def)
  from update_system_no_solution [OF p s] p s show ?thesis by simp
qed


section \<open>Properties of the location-pick handler\<close>










section \<open>Properties of the route optimizer\<close>

lemma add_passengers_eq:
  "add_passengers ps (locs, pairs) =
     (locs @ stop_coords ps,
      pairs @ map (\<lambda>k. (length locs + 2 * k, length locs + 2 * k + 1)) [0..<length ps])"
proof (induction ps arbitrary: locs pairs)
  case Nil
  then show ?case by simp
next
  case (Cons p ps)
  have "map (\<lambda>k. (length locs + 2 * k, length locs + 2 * k + 1)) [0..<Suc (length ps)]
      = (length locs, length locs + 1)
        # map (\<lambda>k. (length locs + 2 + 2 * k, length locs + 2 + 2 * k + 1)) [0..<length ps]"
    by (simp add: upt_conv_Cons map_Suc_upt [symmetric] del: upt_Suc)
  then show ?case by (simp add: Cons.IH Let_def)
qed

lemma length_stop_coords: "length (stop_coords ps) = 2 * length ps"
  by (induction ps) auto

lemma stop_coords_nth:
  "k < length ps \<Longrightarrow>
     stop_coords ps ! (2 * k) = coords (start_stop (ps ! k))
     \<and> stop_coords ps ! (2 * k + 1) = coords (end_stop (ps ! k))"
proof (induction ps arbitrary: k)
  case Nil
  then show ?case by simp
next
  case (Cons p ps)
  show ?case
  proof (cases k)
    case 0
    then show ?thesis by simp
  next
    case (Suc k')
    with Cons.prems have "k' < length ps" by simp
    from Cons.IH [OF this] show ?thesis using Suc by simp
  qed
qed

lemma visit_order_lt: "j \<in> set (visit_order nxt n i k) \<Longrightarrow> j < n"
  by (induction k arbitrary: i) (auto simp: is_end_def split: if_splits)

lemma follow_route_visit:
  assumes "length (visit_order nxt n i k) = k" and "0 < k"
    and "is_end n (nxt (last (visit_order nxt n i k)))"
  shows "follow_route nxt n locs i acc =
           Some (acc @ map (\<lambda>j. locs ! j) (visit_order nxt n i k)
                 @ [locs ! index_to_node n (nxt (last (visit_order nxt n i k)))])"
  using assms
proof (induction k arbitrary: i acc)
  case 0
  then show ?case by simp
next
  case (Suc k)
  from Suc.prems(1) have not_end: "\<not> is_end n i" by (auto split: if_splits)
  then have i_lt: "index_to_node n i = i" by (simp add: is_end_def index_to_node_def)
  have vo: "visit_order nxt n i (Suc k) = i # visit_order nxt n (nxt i) k"
    using not_end by simp
  have len: "length (visit_order nxt n (nxt i) k) = k" using Suc.prems(1) vo by simp
  show ?case
  proof (cases k)
    case 0
    then have "is_end n (nxt i)" using Suc.prems(3) vo by simp
    then show ?thesis
      using not_end i_lt 0 vo
      by (subst follow_route.simps, simp, subst follow_route.simps, simp)
  next
    case (Suc k')
    then have pos: "0 < k" by simp
    have ne: "visit_order nxt n (nxt i) k \<noteq> []" using len pos by auto
    then have last_eq: "last (visit_order nxt n i (Suc k)) = last (visit_order nxt n (nxt i) k)"
      using vo by simp
    have e: "is_end n (nxt (last (visit_order nxt n (nxt i) k)))"
      using Suc.prems(3) last_eq by simp
    have "follow_route nxt n locs i acc = follow_route nxt n locs (nxt i) (acc @ [locs ! i])"
      using not_end i_lt by (subst follow_route.simps) simp
    also note Suc.IH [OF len pos e, of "acc @ [locs ! i]"]
    finally show ?thesis using vo last_eq by simp
  qed
qed

text \<open>What a routing solution of a model with at least one node looks like.\<close>

lemma routing_solution_route:
  assumes "routing_solution m nxt" and "0 < num_nodes m"
  defines "r \<equiv> visit_order nxt (num_nodes m) route_start (num_nodes m)"
  shows "length r = num_nodes m" and "distinct r" and "set r = {0..<num_nodes m}"
    and "hd r = 0" and "nxt (last r) = num_nodes m"
proof -
  from assms(1) show len: "length r = num_nodes m" and dist: "distinct r"
    and "nxt (last r) = num_nodes m"
    by (simp_all add: routing_solution_def Let_def r_def)
  have sub: "set r \<subseteq> {0..<num_nodes m}"
    using visit_order_lt [of _ nxt "num_nodes m" route_start "num_nodes m"] by (auto simp: r_def)
  have "card (set r) = num_nodes m" using dist len by (simp add: distinct_card)
  then show "set r = {0..<num_nodes m}"
    using sub by (intro card_subset_eq) auto
  from assms(2) obtain k where k: "num_nodes m = Suc k" by (cases "num_nodes m") auto
  show "hd r = 0" unfolding r_def k by (simp add: route_start_def is_end_def)
qed

lemma vrp_model_eq:
  "vrp_model d ps =
     build_model (d # stop_coords ps) (map (\<lambda>k. (1 + 2 * k, 1 + 2 * k + 1)) [0..<length ps])"
  by (simp add: vrp_model_def add_passengers_eq)

lemma num_nodes_vrp_model: "num_nodes (vrp_model d ps) = 2 * length ps + 1"
  by (simp add: vrp_model_eq build_model_def length_stop_coords)

lemma solve_vrp_path:
  assumes solved: "solve_with_parameters e (vrp_model d ps) = Some nxt"
    and sol: "routing_solution (vrp_model d ps) nxt"
  defines "r \<equiv> visit_order nxt (2 * length ps + 1) route_start (2 * length ps + 1)"
  shows "solve_vrp e d ps =
           Some ((Some nxt, map (\<lambda>j. (d # stop_coords ps) ! j) r @ [d]),
                 [Optimizer_call (d # stop_coords ps)])"
proof -
  let ?locs = "d # stop_coords ps"
  let ?n = "2 * length ps + 1"
  have n: "num_nodes (vrp_model d ps) = ?n" by (rule num_nodes_vrp_model)
  have len_locs: "length ?locs = ?n" by (simp add: length_stop_coords)
  have pos: "0 < num_nodes (vrp_model d ps)" by (simp add: n)
  note rs = routing_solution_route [OF sol pos, unfolded n, folded r_def]
  have "follow_route nxt ?n ?locs route_start [] =
          Some ([] @ map (\<lambda>j. ?locs ! j) r @ [?locs ! index_to_node ?n (nxt (last r))])"
    unfolding r_def
    by (rule follow_route_visit) (use rs in \<open>simp_all add: r_def is_end_def\<close>)
  moreover have "?locs ! index_to_node ?n (nxt (last r)) = d"
    using rs(5) by (simp add: index_to_node_def)
  ultimately have fr: "follow_route nxt (length ?locs) ?locs route_start []
      = Some (map (\<lambda>j. ?locs ! j) r @ [d])"
    by (simp only: len_locs append_Nil)
  have solved': "solve_with_parameters e
      (build_model ?locs (map (\<lambda>k. (1 + 2 * k, 1 + 2 * k + 1)) [0..<length ps])) = Some nxt"
    using solved by (simp add: vrp_model_eq)
  show ?thesis
    unfolding solve_vrp_def add_passengers_eq using solved' fr by simp
qed

lemma precedes_positions:
  "precedes x y xs \<Longrightarrow> \<exists>i j. i < j \<and> j < length xs \<and> xs ! i = x \<and> xs ! j = y"
proof (induction xs)
  case Nil
  then show ?case by simp
next
  case (Cons z zs)
  show ?case
  proof (cases "z = x")
    case True
    with Cons.prems have "y \<in> set zs" by simp
    then obtain j where "j < length zs" "zs ! j = y" by (auto simp: in_set_conv_nth)
    then have "0 < Suc j \<and> Suc j < length (z # zs) \<and> (z # zs) ! 0 = x \<and> (z # zs) ! Suc j = y"
      using True by simp
    then show ?thesis by blast
  next
    case False
    with Cons.prems have "precedes x y zs" by simp
    from Cons.IH [OF this] obtain i j where "i < j" "j < length zs" "zs ! i = x" "zs ! j = y"
      by blast
    then have "Suc i < Suc j \<and> Suc j < length (z # zs) \<and> (z # zs) ! Suc i = x \<and> (z # zs) ! Suc j = y"
      by simp
    then show ?thesis by blast
  qed
qed

lemma pickup_delivery_vrp_model:
  "pickup_delivery (vrp_model d ps) = map (\<lambda>k. (1 + 2 * k, 1 + 2 * k + 1)) [0..<length ps]"
  by (simp add: vrp_model_eq build_model_def node_to_index_def comp_def)

lemma stop_coords_mem:
  "p \<in> set ps \<Longrightarrow>
     coords (start_stop p) \<in> set (stop_coords ps) \<and> coords (end_stop p) \<in> set (stop_coords ps)"
  by (induction ps) auto

lemma map_nth_tl: "map (\<lambda>j. (x # xs) ! j) [1..<Suc (length xs)] = xs"
proof -
  have "map (\<lambda>j. (x # xs) ! j) [1..<Suc (length xs)] = map (\<lambda>j. xs ! j) [0..<length xs]"
    by (simp add: map_Suc_upt [symmetric] del: upt_Suc)
  then show ?thesis by (simp add: map_nth)
qed

lemma distance_between_nonneg: "0 \<le> distance_between p q"
  by (simp add: distance_between_floor great_circle_nonneg)

lemma distance_between_same: "distance_between p p = 0"
proof -
  have "\<bar>fst p - fst p\<bar> \<le> 180" by simp
  from great_circle_same_lon [OF this, of "snd p"] show ?thesis
    by (simp add: distance_between_floor)
qed


lemma routing_solution_single_node:
  assumes "num_nodes m = 1"
  shows "routing_solution m nxt \<longleftrightarrow>
           nxt 0 = 1 \<and> 0 \<le> arc_cost m 0 1 \<and> arc_cost m 0 1 \<le> dim_capacity m \<and> 0 \<le> dim_capacity m
           \<and> list_all (\<lambda>(p, d). precedes p d [0]) (pickup_delivery m)
           \<and> list_all (\<lambda>(p, d). cumul_at [0, 1] [0, arc_cost m 0 1] p \<le> cumul_at [0, 1] [0, arc_cost m 0 1] d) (cumul_le m)"
  using assms by (auto simp: routing_solution_def Let_def route_start_def is_end_def)

lemma cumuls_hd: "xs \<noteq> [] \<Longrightarrow> cumuls cost c xs = c # tl (cumuls cost c xs)"
  by (induction cost c xs rule: cumuls.induct) auto

lemma routing_solution_first_leg:
  assumes sol: "routing_solution m nxt" and n2: "2 \<le> num_nodes m"
  shows "nxt 0 \<noteq> 0" and "nxt 0 < num_nodes m" and "arc_cost m 0 (nxt 0) \<le> dim_capacity m"
proof -
  obtain k where n: "num_nodes m = Suc (Suc k)"
    using n2 by (metis Suc_le_D numeral_2_eq_2 Suc_le_mono)
  let ?n = "num_nodes m"
  let ?r = "visit_order nxt ?n route_start ?n"
  from sol have len: "length ?r = ?n" and dist: "distinct ?r"
    and caps: "list_all (\<lambda>c. 0 \<le> c \<and> c \<le> dim_capacity m) (cumuls (arc_cost m) 0 (?r @ [?n]))"
    by (simp_all add: routing_solution_def Let_def)
  have r1: "?r = 0 # visit_order nxt ?n (nxt 0) (Suc k)"
    by (simp add: n route_start_def is_end_def)
  have "length (visit_order nxt ?n (nxt 0) (Suc k)) = Suc k" using len r1 n by simp
  then have not_end: "\<not> is_end ?n (nxt 0)" by (auto split: if_splits)
  then show "nxt 0 < num_nodes m" by (simp add: is_end_def)
  have r2: "?r = 0 # nxt 0 # visit_order nxt ?n (nxt (nxt 0)) k"
    using r1 not_end by simp
  from dist show "nxt 0 \<noteq> 0" unfolding r2 by auto
  let ?rest = "visit_order nxt ?n (nxt (nxt 0)) k @ [?n]"
  have "cumuls (arc_cost m) 0 (?r @ [?n])
      = 0 # cumuls (arc_cost m) (0 + arc_cost m 0 (nxt 0)) (nxt 0 # ?rest)"
    unfolding r2 by simp
  also have "cumuls (arc_cost m) (0 + arc_cost m 0 (nxt 0)) (nxt 0 # ?rest)
      = (0 + arc_cost m 0 (nxt 0)) # tl (cumuls (arc_cost m) (0 + arc_cost m 0 (nxt 0)) (nxt 0 # ?rest))"
    by (rule cumuls_hd) simp
  finally show "arc_cost m 0 (nxt 0) \<le> dim_capacity m"
    using caps by simp
qed

lemma vrp_model_one:
  "vrp_model d [p] = build_model [d, coords (start_stop p), coords (end_stop p)] [(1, 2)]"
  by (simp add: vrp_model_def numeral_2_eq_2)

lemma far_depot_legs:
  "100000 < distance_between far_depot (coords stop_a)"
  "100000 < distance_between far_depot (coords stop_b)"
proof -
  have a: "\<bar>37.6620 - 39.661545 :: real\<bar> \<le> 180" by simp
  have b: "\<bar>37.6630 - 39.661545 :: real\<bar> \<le> 180" by simp
  from distance_same_lon_bounds(1) [OF a, of "126.747219"]
  show "100000 < distance_between far_depot (coords stop_a)"
    by (simp add: far_depot_def stop_a_def)
  from distance_same_lon_bounds(1) [OF b, of "126.747219"]
  show "100000 < distance_between far_depot (coords stop_b)"
    by (simp add: far_depot_def stop_b_def)
qed

lemma far_depot_infeasible: "\<not> routing_solution (vrp_model far_depot [request_ab]) nxt"
proof
  let ?m = "vrp_model far_depot [request_ab]"
  assume sol: "routing_solution ?m nxt"
  have m: "?m = build_model [far_depot, coords stop_a, coords stop_b] [(1, 2)]"
    by (simp add: vrp_model_one request_ab_def)
  have n: "num_nodes ?m = 3" by (simp add: m build_model_def)
  then have n2: "2 \<le> num_nodes ?m" by simp
  note fl = routing_solution_first_leg [OF sol n2]
  from fl(1,2) n have "nxt 0 = 1 \<or> nxt 0 = 2" by auto
  moreover have "arc_cost ?m 0 1 = distance_between far_depot (coords stop_a)"
    by (simp add: m build_model_def dist_fn_def index_to_node_def)
  moreover have "arc_cost ?m 0 2 = distance_between far_depot (coords stop_b)"
    by (simp add: m build_model_def dist_fn_def index_to_node_def)
  moreover have "dim_capacity ?m = 100000" by (simp add: m build_model_def)
  ultimately show False using fl(3) far_depot_legs by auto
qed

lemma example_legs:
  "0 \<le> distance_between home_depot (coords stop_a)"
  "distance_between home_depot (coords stop_a) \<le> 64"
  "0 \<le> distance_between (coords stop_a) (coords stop_b)"
  "distance_between (coords stop_a) (coords stop_b) \<le> 141"
  "0 \<le> distance_between (coords stop_b) home_depot"
  "distance_between (coords stop_b) home_depot \<le> 205"
proof -
  have a: "\<bar>37.6620 - 37.661545 :: real\<bar> \<le> 180" by simp
  have b: "\<bar>37.6630 - 37.6620 :: real\<bar> \<le> 180" by simp
  have c: "\<bar>37.661545 - 37.6630 :: real\<bar> \<le> 180" by simp
  from distance_same_lon_bounds(2) [OF a, of "126.747219"]
  show "distance_between home_depot (coords stop_a) \<le> 64"
    by (simp add: home_depot_def initial_session_def stop_a_def)
  from distance_same_lon_bounds(2) [OF b, of "126.747219"]
  show "distance_between (coords stop_a) (coords stop_b) \<le> 141"
    by (simp add: stop_a_def stop_b_def)
  from distance_same_lon_bounds(2) [OF c, of "126.747219"]
  show "distance_between (coords stop_b) home_depot \<le> 205"
    by (simp add: home_depot_def initial_session_def stop_b_def)
qed (rule distance_between_nonneg)+

lemma example_solution: "routing_solution (vrp_model home_depot [request_ab]) Suc"
proof -
  let ?locs = "[home_depot, coords stop_a, coords stop_b]"
  have m: "vrp_model home_depot [request_ab] = build_model ?locs [(1, 2)]"
    by (simp add: vrp_model_one request_ab_def)
  show ?thesis
    unfolding m routing_solution_def Let_def
    using example_legs
    by (simp add: build_model_def node_to_index_def cumul_at_def route_start_def is_end_def
          dist_fn_def index_to_node_def eval_nat_numeral)
qed

lemma example_solve:
  "solve_vrp env_road_timeout home_depot [request_ab]
     = Some ((Some Suc, [home_depot, coords stop_a, coords stop_b, home_depot]),
             [Optimizer_call [home_depot, coords stop_a, coords stop_b]])"
proof -
  have s: "solve_with_parameters env_road_timeout (vrp_model home_depot [request_ab]) = Some Suc"
    by (simp add: env_road_timeout_def)
  show ?thesis
    using solve_vrp_path [OF s example_solution]
    by (simp add: request_ab_def route_start_def is_end_def eval_nat_numeral)
qed

lemma solve_vrp_Some_solution:
  "solve_vrp e d ps = Some ((Some nxt, path), calls) \<Longrightarrow>
     solve_with_parameters e (vrp_model d ps) = Some nxt"
  by (auto simp: solve_vrp_def vrp_model_def split: prod.splits option.splits)

text \<open>
  Claim C1, as stated, fails: the optimizer does not succeed for every non-empty request
  set. The dimension of line 83 bounds every cumulated distance by 100000 m; with the
  depot about 222 km from both stops of the one request no tour respects it, so every
  solver that respects its contract returns nothing, and \<open>solve_vrp\<close> returns the empty
  path, which holds no pickup and no dropoff.
\<close>

theorem solve_vrp_out_of_range_counterexample:
  "[request_ab] \<noteq> []
   \<and> \<not> (\<exists>e. solver_sound e (vrp_model far_depot [request_ab])
            \<and> solve_vrp e far_depot [request_ab]
                \<noteq> Some ((None, []), [Optimizer_call [far_depot, coords stop_a, coords stop_b]]))
   \<and> \<not> (\<exists>i j. i < j \<and> j < length ([] :: coord list)
            \<and> [] ! i = coords (start_stop request_ab) \<and> [] ! j = coords (end_stop request_ab))"
proof -
  have "solve_vrp e far_depot [request_ab]
          = Some ((None, []), [Optimizer_call [far_depot, coords stop_a, coords stop_b]])"
    if sound: "solver_sound e (vrp_model far_depot [request_ab])" for e
  proof (cases "solve_with_parameters e (vrp_model far_depot [request_ab])")
    case None
    from solve_vrp_solver_none [OF None] show ?thesis by (simp add: request_ab_def)
  next
    case (Some nxt)
    with sound have "routing_solution (vrp_model far_depot [request_ab]) nxt"
      by (simp add: solver_sound_def)
    with far_depot_infeasible show ?thesis by simp
  qed
  then show ?thesis by auto
qed

text \<open>
  Claim C1, amended: for every depot and every request set, if the solver returns an
  assignment and respects its contract on the model of lines 78-92, then \<open>solve_vrp\<close>
  returns (its loop terminates) and the returned path holds, for every request, the
  pickup coordinate at a strictly earlier position than the dropoff coordinate.
\<close>

theorem solve_vrp_pickup_before_dropoff:
  assumes "solve_with_parameters e (vrp_model depot_c ps) = Some nxt"
    and "solver_sound e (vrp_model depot_c ps)"
  shows "\<exists>path calls.
           solve_vrp e depot_c ps = Some ((Some nxt, path), calls)
           \<and> (\<forall>k < length ps. \<exists>i j. i < j \<and> j < length path
                  \<and> path ! i = coords (start_stop (ps ! k))
                  \<and> path ! j = coords (end_stop (ps ! k)))"
proof -
  let ?locs = "depot_c # stop_coords ps"
  let ?r = "visit_order nxt (2 * length ps + 1) route_start (2 * length ps + 1)"
  let ?path = "map (\<lambda>j. ?locs ! j) ?r @ [depot_c]"
  have sol: "routing_solution (vrp_model depot_c ps) nxt"
    using assms by (simp add: solver_sound_def)
  have path: "solve_vrp e depot_c ps = Some ((Some nxt, ?path), [Optimizer_call ?locs])"
    by (rule solve_vrp_path [OF assms(1) sol])
  have prec: "list_all (\<lambda>(p, d). precedes p d ?r) (pickup_delivery (vrp_model depot_c ps))"
    using sol by (simp add: routing_solution_def Let_def num_nodes_vrp_model)
  have "\<exists>i j. i < j \<and> j < length ?path
          \<and> ?path ! i = coords (start_stop (ps ! k)) \<and> ?path ! j = coords (end_stop (ps ! k))"
    if k: "k < length ps" for k
  proof -
    have "(1 + 2 * k, 1 + 2 * k + 1) \<in> set (pickup_delivery (vrp_model depot_c ps))"
      using k by (simp add: pickup_delivery_vrp_model)
    with prec have "precedes (1 + 2 * k) (1 + 2 * k + 1) ?r"
      by (auto simp: list_all_iff)
    then have "\<exists>i j. i < j \<and> j < length ?r \<and> ?r ! i = 1 + 2 * k \<and> ?r ! j = 1 + 2 * k + 1"
      by (rule precedes_positions)
    then obtain i j where ij: "i < j" "j < length ?r" "?r ! i = 1 + 2 * k" "?r ! j = 1 + 2 * k + 1"
      by (elim exE conjE)
    have "?path ! i = ?locs ! (1 + 2 * k)" using ij by (simp add: nth_append)
    then have pi: "?path ! i = coords (start_stop (ps ! k))"
      using stop_coords_nth [OF k] by simp
    have "?path ! j = ?locs ! (1 + 2 * k + 1)" using ij by (simp add: nth_append)
    then have pj: "?path ! j = coords (end_stop (ps ! k))"
      using stop_coords_nth [OF k] by simp
    from ij(2) have jlen: "j < length ?path" by simp
    have conj: "i < j \<and> j < length ?path
          \<and> ?path ! i = coords (start_stop (ps ! k)) \<and> ?path ! j = coords (end_stop (ps ! k))"
      by (intro conjI ij(1) jlen pi pj)
    show ?thesis by (rule exI [of _ i], rule exI [of _ j], rule conj)
  qed
  then have all: "\<forall>k < length ps. \<exists>i j. i < j \<and> j < length ?path
          \<and> ?path ! i = coords (start_stop (ps ! k)) \<and> ?path ! j = coords (end_stop (ps ! k))"
    by simp
  show ?thesis
    by (rule exI [of _ ?path], rule exI [of _ "[Optimizer_call ?locs]"], rule conjI [OF path all])
qed

theorem solve_vrp_pickup_before_dropoff_witness:
  "solve_with_parameters env_road_timeout (vrp_model home_depot [request_ab]) = Some Suc
   \<and> solver_sound env_road_timeout (vrp_model home_depot [request_ab])
   \<and> (\<exists>path calls.
         solve_vrp env_road_timeout home_depot [request_ab] = Some ((Some Suc, path), calls)
         \<and> (\<forall>k < length [request_ab]. \<exists>i j. i < j \<and> j < length path
              \<and> path ! i = coords (start_stop ([request_ab] ! k))
              \<and> path ! j = coords (end_stop ([request_ab] ! k))))"
proof -
  have h1: "solve_with_parameters env_road_timeout (vrp_model home_depot [request_ab]) = Some Suc"
    by (simp add: env_road_timeout_def)
  have h2: "solver_sound env_road_timeout (vrp_model home_depot [request_ab])"
    using example_solution by (simp add: solver_sound_def h1)
  from solve_vrp_pickup_before_dropoff [OF h1 h2] h1 h2 show ?thesis by (intro conjI)
qed

text \<open>
  Claim C6, as stated, fails: line 98 appends the coordinate of the end index, which is
  the depot again, so for one request the path has 4 entries, not 3, and ends with the
  depot.
\<close>

theorem solve_vrp_length_counterexample:
  "solver_sound env_road_timeout (vrp_model home_depot [request_ab])
   \<and> solve_vrp env_road_timeout home_depot [request_ab]
       = Some ((Some Suc, [home_depot, coords stop_a, coords stop_b, home_depot]),
               [Optimizer_call [home_depot, coords stop_a, coords stop_b]])
   \<and> length [home_depot, coords stop_a, coords stop_b, home_depot] \<noteq> 2 * length [request_ab] + 1
   \<and> last [home_depot, coords stop_a, coords stop_b, home_depot] = home_depot"
proof -
  have "solver_sound env_road_timeout (vrp_model home_depot [request_ab])"
    using example_solution by (simp add: solver_sound_def env_road_timeout_def)
  with example_solve show ?thesis by simp
qed

text \<open>
  Claim C6, amended: for every depot and every request set of size n for which the solver
  returns an assignment (respecting its contract), the returned path has length 2n+2, begins
  and ends with the depot coordinate, and holds every request's pickup and dropoff
  coordinate between the two.
\<close>

theorem solve_vrp_closed_tour:
  assumes "solve_with_parameters e (vrp_model depot_c ps) = Some nxt"
    and "solver_sound e (vrp_model depot_c ps)"
  shows "\<exists>path calls.
           solve_vrp e depot_c ps = Some ((Some nxt, path), calls)
           \<and> length path = 2 * length ps + 2
           \<and> hd path = depot_c \<and> last path = depot_c
           \<and> (\<forall>p \<in> set ps. coords (start_stop p) \<in> set (butlast (tl path))
                             \<and> coords (end_stop p) \<in> set (butlast (tl path)))"
proof -
  let ?locs = "depot_c # stop_coords ps"
  let ?n = "2 * length ps + 1"
  let ?r = "visit_order nxt ?n route_start ?n"
  let ?path = "map (\<lambda>j. ?locs ! j) ?r @ [depot_c]"
  have sol: "routing_solution (vrp_model depot_c ps) nxt"
    using assms by (simp add: solver_sound_def)
  have path: "solve_vrp e depot_c ps = Some ((Some nxt, ?path), [Optimizer_call ?locs])"
    by (rule solve_vrp_path [OF assms(1) sol])
  have n: "num_nodes (vrp_model depot_c ps) = ?n" by (rule num_nodes_vrp_model)
  have pos: "0 < num_nodes (vrp_model depot_c ps)" by (simp add: n)
  note rs = routing_solution_route [OF sol pos, unfolded n]
  from rs(1) have ne: "?r \<noteq> []" by auto
  then obtain r' where r: "?r = 0 # r'" using rs(4) by (cases ?r) auto
  have len: "length ?path = 2 * length ps + 2" using rs(1) by simp
  have hd: "hd ?path = depot_c" unfolding r by simp
  have lst: "last ?path = depot_c" by simp
  have mid: "butlast (tl ?path) = map (\<lambda>j. ?locs ! j) r'" unfolding r by (simp add: butlast_append)
  have "set r' = {1..<?n}"
  proof -
    have z: "0 \<notin> set r'" using rs(2) unfolding r by simp
    have ins: "insert 0 (set r') = {0..<?n}" using rs(3) unfolding r by simp
    show ?thesis
    proof (rule set_eqI)
      fix x
      have "x \<in> insert 0 (set r') \<longleftrightarrow> x \<in> {0..<?n}" by (simp only: ins)
      then show "x \<in> set r' \<longleftrightarrow> x \<in> {1..<?n}" using z by (cases "x = 0") auto
    qed
  qed
  then have "set r' = set [1..<Suc (length (stop_coords ps))]"
    by (simp only: length_stop_coords set_upt) simp
  then have "set (map (\<lambda>j. ?locs ! j) r') = set (map (\<lambda>j. ?locs ! j) [1..<Suc (length (stop_coords ps))])"
    by (simp only: set_map)
  then have "set (butlast (tl ?path)) = set (stop_coords ps)"
    by (simp only: mid map_nth_tl)
  then have mem: "\<forall>p \<in> set ps. coords (start_stop p) \<in> set (butlast (tl ?path))
                             \<and> coords (end_stop p) \<in> set (butlast (tl ?path))"
    using stop_coords_mem [of _ ps] by (intro ballI) (simp only:)
  show ?thesis
    by (rule exI [of _ ?path], rule exI [of _ "[Optimizer_call ?locs]"])
       (intro conjI path len hd lst mem)
qed

theorem solve_vrp_closed_tour_witness:
  "solve_with_parameters env_road_timeout (vrp_model home_depot [request_ab]) = Some Suc
   \<and> solver_sound env_road_timeout (vrp_model home_depot [request_ab])
   \<and> (\<exists>path calls.
         solve_vrp env_road_timeout home_depot [request_ab] = Some ((Some Suc, path), calls)
         \<and> length path = 2 * length [request_ab] + 2
         \<and> hd path = home_depot \<and> last path = home_depot
         \<and> (\<forall>p \<in> set [request_ab]. coords (start_stop p) \<in> set (butlast (tl path))
                                     \<and> coords (end_stop p) \<in> set (butlast (tl path))))"
proof -
  have h1: "solve_with_parameters env_road_timeout (vrp_model home_depot [request_ab]) = Some Suc"
    by (simp add: env_road_timeout_def)
  have h2: "solver_sound env_road_timeout (vrp_model home_depot [request_ab])"
    using example_solution by (simp add: solver_sound_def h1)
  from solve_vrp_closed_tour [OF h1 h2] h1 h2 show ?thesis by (intro conjI)
qed

text \<open>
  Claim C7. For every depot, with an empty request set the model of lines 78-92 has a
  solution, so a solver that finds a solution when there is one succeeds; and then
  \<open>solve_vrp\<close> returns the path that holds the depot only (as start and as end of the
  tour), whose cost is zero.
\<close>

theorem solve_vrp_no_requests:
  assumes "solver_sound e (vrp_model depot_c [])" and "solver_complete e (vrp_model depot_c [])"
  shows "\<exists>nxt. solve_vrp e depot_c [] = Some ((Some nxt, [depot_c, depot_c]), [Optimizer_call [depot_c]])
               \<and> objective_value (vrp_model depot_c []) nxt = 0"
proof -
  let ?m = "vrp_model depot_c []"
  have m: "?m = build_model [depot_c] []" by (simp add: vrp_model_def)
  have n: "num_nodes ?m = 1" by (simp add: m build_model_def)
  have cost: "arc_cost ?m 0 1 = 0"
    by (simp add: m build_model_def dist_fn_def index_to_node_def distance_between_same)
  have "routing_solution ?m Suc"
    unfolding routing_solution_single_node [OF n] cost by (simp add: m build_model_def)
  then have "\<exists>nxt. routing_solution ?m nxt" by (rule exI [of _ Suc])
  with assms(2) obtain nxt where solved: "solve_with_parameters e ?m = Some nxt"
    by (auto simp: solver_complete_def)
  with assms(1) have sol: "routing_solution ?m nxt" by (simp add: solver_sound_def)
  then have nxt0: "nxt 0 = 1" unfolding routing_solution_single_node [OF n] by simp
  have vo: "visit_order nxt 1 route_start 1 = [0]"
    by (simp add: route_start_def is_end_def)
  have "solve_vrp e depot_c [] = Some ((Some nxt, [depot_c, depot_c]), [Optimizer_call [depot_c]])"
    using solve_vrp_path [OF solved sol] by (simp add: route_start_def is_end_def)
  moreover have "objective_value ?m nxt = 0"
    using cost by (simp add: objective_value_def n route_start_def is_end_def)
  ultimately show ?thesis by (intro exI [of _ nxt] conjI)
qed

theorem solve_vrp_no_requests_witness:
  "solver_sound env_road_timeout (vrp_model home_depot [])
   \<and> solver_complete env_road_timeout (vrp_model home_depot [])
   \<and> (\<exists>nxt. solve_vrp env_road_timeout home_depot []
               = Some ((Some nxt, [home_depot, home_depot]), [Optimizer_call [home_depot]])
             \<and> objective_value (vrp_model home_depot []) nxt = 0)"
proof -
  let ?m = "vrp_model home_depot []"
  have m: "?m = build_model [home_depot] []" by (simp add: vrp_model_def)
  have n: "num_nodes ?m = 1" by (simp add: m build_model_def)
  have cost: "arc_cost ?m 0 1 = 0"
    by (simp add: m build_model_def dist_fn_def index_to_node_def distance_between_same)
  have "routing_solution ?m Suc"
    unfolding routing_solution_single_node [OF n] cost by (simp add: m build_model_def)
  then have h1: "solver_sound env_road_timeout ?m"
    by (simp add: solver_sound_def env_road_timeout_def)
  have h2: "solver_complete env_road_timeout ?m"
    by (simp add: solver_complete_def env_road_timeout_def)
  from solve_vrp_no_requests [OF h1 h2] h1 h2 show ?thesis by (intro conjI)
qed


end
